theory Spec2Isabelle
  imports Main "HOL-Library.Word" "HOL-Library.AList"
begin

unbundle bit_operations_syntax

section \<open>Library functions the ledger calls\<close>

subsection \<open>\<^verbatim>\<open>hashlib.sha256(b).hexdigest()\<close>\<close>

text \<open>
  The ledger hashes blocks, proof guesses and commitments with SHA-256 and always takes
  the hexadecimal digest. The function is written out (FIPS 180-4) over 32-bit words, so
  that the length of a digest is a theorem and a digest can be computed.
\<close>

type_synonym w32 = "32 word"
type_synonym byte = "8 word"
type_synonym hstate = "w32 \<times> w32 \<times> w32 \<times> w32 \<times> w32 \<times> w32 \<times> w32 \<times> w32"

definition rotr :: "nat \<Rightarrow> w32 \<Rightarrow> w32" where
  "rotr n x = (drop_bit n x) OR (push_bit (32 - n) x)"

definition K256 :: "w32 list" where
  \<comment> \<open>the 64 round constants\<close>
  "K256 =
     [1116352408, 1899447441, 3049323471, 3921009573, 961987163, 1508970993,
      2453635748, 2870763221, 3624381080, 310598401, 607225278, 1426881987,
      1925078388, 2162078206, 2614888103, 3248222580, 3835390401, 4022224774,
      264347078, 604807628, 770255983, 1249150122, 1555081692, 1996064986,
      2554220882, 2821834349, 2952996808, 3210313671, 3336571891, 3584528711,
      113926993, 338241895, 666307205, 773529912, 1294757372, 1396182291,
      1695183700, 1986661051, 2177026350, 2456956037, 2730485921, 2820302411,
      3259730800, 3345764771, 3516065817, 3600352804, 4094571909, 275423344,
      430227734, 506948616, 659060556, 883997877, 958139571, 1322822218,
      1537002063, 1747873779, 1955562222, 2024104815, 2227730452, 2361852424,
      2428436474, 2756734187, 3204031479, 3329325298]"

definition H256 :: hstate where
  \<comment> \<open>the initial hash value\<close>
  "H256 = (1779033703, 3144134277, 1013904242, 2773480762,
           1359893119, 2600822924, 528734635, 1541459225)"

definition ssig0 :: "w32 \<Rightarrow> w32" where
  "ssig0 x = rotr 7 x XOR rotr 18 x XOR drop_bit 3 x"

definition ssig1 :: "w32 \<Rightarrow> w32" where
  "ssig1 x = rotr 17 x XOR rotr 19 x XOR drop_bit 10 x"

definition bsig0 :: "w32 \<Rightarrow> w32" where
  "bsig0 x = rotr 2 x XOR rotr 13 x XOR rotr 22 x"

definition bsig1 :: "w32 \<Rightarrow> w32" where
  "bsig1 x = rotr 6 x XOR rotr 11 x XOR rotr 25 x"

definition choice :: "w32 \<Rightarrow> w32 \<Rightarrow> w32 \<Rightarrow> w32" where
  "choice x y z = (x AND y) XOR (NOT x AND z)"

definition majority :: "w32 \<Rightarrow> w32 \<Rightarrow> w32 \<Rightarrow> w32" where
  "majority x y z = (x AND y) XOR (x AND z) XOR (y AND z)"

text \<open>The message length in bits, as eight big-endian bytes.\<close>

definition be_bytes :: "nat \<Rightarrow> byte list" where
  "be_bytes n = map (\<lambda>i. ucast (drop_bit (56 - 8 * i) (of_nat n :: 64 word))) [0..<8]"

definition pad :: "byte list \<Rightarrow> byte list" where
  "pad m = m @ [0x80] @ replicate ((119 - length m mod 64) mod 64) 0 @ be_bytes (8 * length m)"

fun be_words :: "byte list \<Rightarrow> w32 list" where
  "be_words (a # b # c # d # r) =
     (push_bit 24 (ucast a) OR push_bit 16 (ucast b) OR push_bit 8 (ucast c) OR ucast d)
       # be_words r"
| "be_words _ = []"

fun schedule :: "nat \<Rightarrow> w32 list \<Rightarrow> w32 list" where
  "schedule 0 w = w"
| "schedule (Suc n) w =
     schedule n (w @ [ssig1 (w ! (length w - 2)) + w ! (length w - 7)
                      + ssig0 (w ! (length w - 15)) + w ! (length w - 16)])"

fun round256 :: "hstate \<Rightarrow> w32 \<times> w32 \<Rightarrow> hstate" where
  "round256 (a, b, c, d, e, f, g, h) (k, w) =
     (let t1 = h + bsig1 e + choice e f g + k + w;
          t2 = bsig0 a + majority a b c
      in (t1 + t2, a, b, c, d + t1, e, f, g))"

fun add_state :: "hstate \<Rightarrow> hstate \<Rightarrow> hstate" where
  "add_state (a, b, c, d, e, f, g, h) (a', b', c', d', e', f', g', h') =
     (a + a', b + b', c + c', d + d', e + e', f + f', g + g', h + h')"

definition compress :: "hstate \<Rightarrow> w32 list \<Rightarrow> hstate" where
  "compress s blk = add_state s (foldl round256 s (zip K256 (schedule 48 blk)))"

fun chunks :: "nat \<Rightarrow> w32 list \<Rightarrow> w32 list list" where
  "chunks 0 xs = []"
| "chunks (Suc n) xs = take 16 xs # chunks n (drop 16 xs)"

definition sha256 :: "byte list \<Rightarrow> hstate" where
  "sha256 m = (let ws = be_words (pad m) in foldl compress H256 (chunks (length ws div 16) ws))"

definition hex_digit :: "nat \<Rightarrow> char" where
  "hex_digit n = ''0123456789abcdef'' ! (n mod 16)"

definition hex32 :: "w32 \<Rightarrow> string" where
  "hex32 w = map (\<lambda>i. hex_digit (unat (drop_bit (28 - 4 * i) w AND 15))) [0..<8]"

fun hexdigest :: "hstate \<Rightarrow> string" where
  "hexdigest (a, b, c, d, e, f, g, h) =
     hex32 a @ hex32 b @ hex32 c @ hex32 d @ hex32 e @ hex32 f @ hex32 g @ hex32 h"

definition sha256_hexdigest :: "byte list \<Rightarrow> string" where
  "sha256_hexdigest m = hexdigest (sha256 m)"

subsection \<open>Python strings, integers and \<^verbatim>\<open>json.dumps\<close>\<close>

text \<open>
  A Python \<^verbatim>\<open>str\<close> is a \<^typ>\<open>string\<close>, one \<^typ>\<open>char\<close> per code point, which
  covers the code points below 256. \<^verbatim>\<open>s.encode()\<close> is UTF-8: one byte below 128, two
  bytes from 128 on.
\<close>

definition utf8 :: "char \<Rightarrow> byte list" where
  "utf8 c = (let n = (of_char c :: nat)
             in if n < 128 then [of_nat n] else [of_nat (192 + n div 64), of_nat (128 + n mod 64)])"

definition encode :: "string \<Rightarrow> byte list" where
  "encode s = concat (map utf8 s)"

text \<open>\<^verbatim>\<open>str(i)\<close> of an integer, which is also what an f-string and \<^verbatim>\<open>json.dumps\<close> write.\<close>

function digits10 :: "int \<Rightarrow> string" where
  "digits10 n = (if n < 10 then [''0123456789'' ! nat n]
                 else digits10 (n div 10) @ [''0123456789'' ! nat (n mod 10)])"
  by pat_completeness auto
termination
  by (relation "measure nat") auto

definition str_int :: "int \<Rightarrow> string" where
  "str_int i = (if i < 0 then CHR ''-'' # digits10 (- i) else digits10 i)"

text \<open>
  The values a transaction holds. A sender or a recipient is \<^verbatim>\<open>None\<close>, a string, an
  integer or a tuple (\<^verbatim>\<open>some_fake\<close> stores a one-element tuple as recipient); a message
  or a signature is \<^verbatim>\<open>None\<close>, a string or an integer. A float timestamp is held as the
  text \<^verbatim>\<open>repr\<close> gives it, since the ledger only ever serialises it.
\<close>

datatype pyval = PyNone | PyStr string | PyInt int | PyTuple "pyval list"

datatype pyatom = ANone | AStr string | AInt int

datatype pyfloat = FloatRepr string

text \<open>Truthiness, as \<^verbatim>\<open>if x:\<close> and \<^verbatim>\<open>x or y\<close> read a value.\<close>

fun truthy :: "pyval \<Rightarrow> bool" where
  "truthy PyNone = False"
| "truthy (PyStr s) = (s \<noteq> [])"
| "truthy (PyInt i) = (i \<noteq> 0)"
| "truthy (PyTuple xs) = (xs \<noteq> [])"

fun truthy_atom :: "pyatom \<Rightarrow> bool" where
  "truthy_atom ANone = False"
| "truthy_atom (AStr s) = (s \<noteq> [])"
| "truthy_atom (AInt i) = (i \<noteq> 0)"

text \<open>What an f-string writes for a message: \<^verbatim>\<open>f"{msg}"\<close>.\<close>

fun format_atom :: "pyatom \<Rightarrow> string" where
  "format_atom ANone = ''None''"
| "format_atom (AStr s) = s"
| "format_atom (AInt i) = str_int i"

text \<open>
  \<^verbatim>\<open>json.dumps\<close> with its defaults (\<^verbatim>\<open>ensure_ascii\<close>, separators \<^verbatim>\<open>", "\<close> and
  \<^verbatim>\<open>": "\<close>): a character outside the printable ASCII range, a quote and a backslash
  are escaped.
\<close>

definition hex4 :: "nat \<Rightarrow> string" where
  "hex4 n = [hex_digit (n div 4096), hex_digit (n div 256), hex_digit (n div 16), hex_digit n]"

definition json_escape :: "char \<Rightarrow> string" where
  "json_escape c =
     (let n = (of_char c :: nat) in
      if n = 34 then [CHR 0x5C, CHR 0x22]
      else if n = 92 then [CHR 0x5C, CHR 0x5C]
      else if n = 10 then [CHR 0x5C, CHR ''n'']
      else if n = 13 then [CHR 0x5C, CHR ''r'']
      else if n = 9 then [CHR 0x5C, CHR ''t'']
      else if n = 8 then [CHR 0x5C, CHR ''b'']
      else if n = 12 then [CHR 0x5C, CHR ''f'']
      else if 32 \<le> n \<and> n \<le> 126 then [c]
      else [CHR 0x5C, CHR ''u''] @ hex4 n)"

definition json_str :: "string \<Rightarrow> string" where
  "json_str s = [CHR 0x22] @ concat (map json_escape s) @ [CHR 0x22]"

fun join :: "string \<Rightarrow> string list \<Rightarrow> string" where
  "join sep [] = []"
| "join sep [x] = x"
| "join sep (x # y # ys) = x @ sep @ join sep (y # ys)"

fun json_val :: "pyval \<Rightarrow> string" where
  "json_val PyNone = ''null''"
| "json_val (PyStr s) = json_str s"
| "json_val (PyInt i) = str_int i"
| "json_val (PyTuple xs) = ''['' @ join '', '' (map json_val xs) @ '']''"

fun json_atom :: "pyatom \<Rightarrow> string" where
  "json_atom ANone = ''null''"
| "json_atom (AStr s) = json_str s"
| "json_atom (AInt i) = str_int i"

fun json_float :: "pyfloat \<Rightarrow> string" where
  "json_float (FloatRepr s) = s"

section \<open>The data model\<close>

text \<open>
  A transaction is a dict with the keys \<^verbatim>\<open>sender\<close>, \<^verbatim>\<open>recipient\<close> and \<^verbatim>\<open>amount\<close>,
  and with \<^verbatim>\<open>signature\<close> and \<^verbatim>\<open>message\<close> either both present or both absent
  (\<^verbatim>\<open>new_transaction\<close> stores them together). A block is a dict with five keys; its key
  \<^verbatim>\<open>proof\<close> is the field \<open>block_proof\<close>. Lists and dicts are values here; the sharing
  between a ledger and its clone is the subject of the store model further down.
\<close>

record transaction =
  sender :: pyval
  recipient :: pyval
  amount :: int
  sigmsg :: "(pyatom \<times> pyatom) option"

definition signature :: "transaction \<Rightarrow> pyatom" where
  \<comment> \<open>\<^verbatim>\<open>transaction.get('signature')\<close>\<close>
  "signature t = (case sigmsg t of None \<Rightarrow> ANone | Some (sg, m) \<Rightarrow> sg)"

definition message :: "transaction \<Rightarrow> pyatom" where
  \<comment> \<open>\<^verbatim>\<open>transaction.get('message')\<close>\<close>
  "message t = (case sigmsg t of None \<Rightarrow> ANone | Some (sg, m) \<Rightarrow> m)"

record block =
  index :: int
  timestamp :: pyfloat
  transactions :: "transaction list"
  block_proof :: int
  previous_hash :: string

record blockchain =
  current_transactions :: "transaction list"
  chain :: "block list"
  nodes :: "string set"
  mining_rate :: int
  proof_sum :: int
  proof_cnt :: int

text \<open>
  The exceptions the code raises: \<^verbatim>\<open>IndexError\<close> from \<^verbatim>\<open>chain[0]\<close> and \<^verbatim>\<open>chain[-1]\<close> on
  an empty chain, and the four \<^verbatim>\<open>Exception(...)\<close> of \<^verbatim>\<open>gives\<close> and \<^verbatim>\<open>key_pair\<close>, named
  by their messages. A result is \<open>error + 'a\<close>; a function that may loop forever returns
  an \<open>option\<close> of it, \<open>None\<close> for not returning.
\<close>

datatype error =
    IndexError
  | InsufficientBalance
  | NegativeBalance string
  | Overpayed
  | CryptoSimError

section \<open>Blockchain\<close>

fun json_transaction :: "transaction \<Rightarrow> string" where
  "json_transaction t =
     ''{'' @ join '', ''
       ([json_str ''amount'' @ '': '' @ str_int (amount t)]
        @ (case sigmsg t of None \<Rightarrow> [] | Some (sg, m) \<Rightarrow> [json_str ''message'' @ '': '' @ json_atom m])
        @ [json_str ''recipient'' @ '': '' @ json_val (recipient t),
           json_str ''sender'' @ '': '' @ json_val (sender t)]
        @ (case sigmsg t of None \<Rightarrow> [] | Some (sg, m) \<Rightarrow> [json_str ''signature'' @ '': '' @ json_atom sg]))
     @ ''}''"

definition json_block :: "block \<Rightarrow> string" where
  \<comment> \<open>\<^verbatim>\<open>json.dumps(block, sort_keys=True)\<close>\<close>
  "json_block b =
     ''{'' @ join '', ''
       [json_str ''index'' @ '': '' @ str_int (index b),
        json_str ''previous_hash'' @ '': '' @ json_str (previous_hash b),
        json_str ''proof'' @ '': '' @ str_int (block_proof b),
        json_str ''timestamp'' @ '': '' @ json_float (timestamp b),
        json_str ''transactions'' @ '': ''
          @ ''['' @ join '', '' (map json_transaction (transactions b)) @ '']'']
     @ ''}''"

definition hash :: "block \<Rightarrow> string" where
  "hash b = sha256_hexdigest (encode (json_block b))"

definition valid_proof :: "int \<Rightarrow> int \<Rightarrow> int \<Rightarrow> bool" where
  "valid_proof last_proof proof rate =
     (let guess = encode (str_int last_proof @ str_int proof);
          guess_hash = sha256_hexdigest guess
      in take 4 guess_hash = replicate (nat rate) CHR ''0'')"

definition last_block :: "blockchain \<Rightarrow> error + block" where
  "last_block self = (if chain self = [] then Inl IndexError else Inr (last (chain self)))"

text \<open>
  \<^verbatim>\<open>new_block(proof, previous_hash)\<close>; \<open>ts\<close> is what \<^verbatim>\<open>time()\<close> returns. The argument
  \<open>prev_hash\<close> is \<open>None\<close> or a string, and \<^verbatim>\<open>previous_hash or self.hash(self.chain[-1])\<close>
  reads the last block only when the argument is \<^verbatim>\<open>None\<close> or empty.
\<close>

definition new_block ::
  "blockchain \<Rightarrow> int \<Rightarrow> string option \<Rightarrow> pyfloat \<Rightarrow> error + (block \<times> blockchain)" where
  "new_block self proof prev_hash ts =
     (case (case prev_hash of
              Some h \<Rightarrow> if h \<noteq> [] then Inr h else map_sum id hash (last_block self)
            | None \<Rightarrow> map_sum id hash (last_block self)) of
        Inl e \<Rightarrow> Inl e
      | Inr h \<Rightarrow>
          let b = \<lparr>index = int (length (chain self)) + 1, timestamp = ts,
                   transactions = current_transactions self, block_proof = proof,
                   previous_hash = h\<rparr>
          in Inr (b, self\<lparr>current_transactions := [], chain := chain self @ [b]\<rparr>))"

text \<open>\<^verbatim>\<open>Blockchain(proof, mining_rate)\<close>, the constructor (defaults 100 and 4).\<close>

definition Blockchain :: "int \<Rightarrow> int \<Rightarrow> pyfloat \<Rightarrow> error + blockchain" where
  "Blockchain proof rate ts =
     (case new_block \<lparr>current_transactions = [], chain = [], nodes = {}, mining_rate = rate,
                      proof_sum = 0, proof_cnt = 0\<rparr> proof (Some ''1'') ts of
        Inl e \<Rightarrow> Inl e
      | Inr (b, self) \<Rightarrow> Inr (self\<lparr>proof_sum := 0, proof_cnt := 0\<rparr>))"

text \<open>\<^verbatim>\<open>clone\<close>; \<open>ts\<close> is the clock reading of the constructor it calls.\<close>

definition clone :: "blockchain \<Rightarrow> pyfloat \<Rightarrow> error + blockchain" where
  "clone self ts =
     (case Blockchain 100 4 ts of
        Inl e \<Rightarrow> Inl e
      | Inr copy \<Rightarrow>
          Inr (copy\<lparr>current_transactions := map (\<lambda>t. t) (current_transactions self),
                    chain := map (\<lambda>c. c) (chain self),
                    nodes := nodes self\<rparr>))"

text \<open>
  \<^verbatim>\<open>valid_chain\<close>: the loop walks the blocks after the first, carrying the previous block \<open>last_blk\<close>.
  Printing (when \<open>silence\<close> is false) is not modelled.
\<close>

fun valid_chain_loop :: "blockchain \<Rightarrow> block \<Rightarrow> block list \<Rightarrow> bool" where
  "valid_chain_loop self last_blk [] = True"
| "valid_chain_loop self last_blk (b # rest) =
     (if previous_hash b \<noteq> hash last_blk then False
      else if \<not> valid_proof (block_proof last_blk) (block_proof b) (mining_rate self) then False
      else valid_chain_loop self b rest)"

definition valid_chain :: "blockchain \<Rightarrow> block list \<Rightarrow> bool \<Rightarrow> error + bool" where
  "valid_chain self chn silence =
     (case chn of [] \<Rightarrow> Inl IndexError | b # rest \<Rightarrow> Inr (valid_chain_loop self b rest))"

text \<open>
  \<^verbatim>\<open>new_transaction\<close>: the pair signature and message is stored only when both are
  truthy. The return value reads \<^verbatim>\<open>self.last_block\<close>, after the append.
\<close>

definition new_transaction ::
  "blockchain \<Rightarrow> pyval \<Rightarrow> pyval \<Rightarrow> int \<Rightarrow> pyatom \<Rightarrow> pyatom \<Rightarrow> error + (int \<times> blockchain)" where
  "new_transaction self sndr rcpt amt sg msg =
     (let t = \<lparr>sender = sndr, recipient = rcpt, amount = amt,
               sigmsg = (if truthy_atom msg \<and> truthy_atom sg then Some (sg, msg) else None)\<rparr>;
          self' = self\<lparr>current_transactions := current_transactions self @ [t]\<rparr>
      in case last_block self' of
           Inl e \<Rightarrow> Inl e
         | Inr b \<Rightarrow> Inr (index b + 1, self'))"

text \<open>
  \<^verbatim>\<open>proof_of_work\<close>: the search loop may run forever, so it is a partial function and
  \<open>None\<close> is not returning.
\<close>

partial_function (option) proof_search :: "int \<Rightarrow> int \<Rightarrow> int \<Rightarrow> int option" where
  "proof_search last_proof rate proof =
     (if valid_proof last_proof proof rate = False
      then proof_search last_proof rate (proof + 1)
      else Some proof)"

definition proof_of_work :: "blockchain \<Rightarrow> int \<Rightarrow> (int \<times> blockchain) option" where
  "proof_of_work self last_proof =
     (case proof_search last_proof (mining_rate self) 0 of
        None \<Rightarrow> None
      | Some proof \<Rightarrow>
          Some (proof, self\<lparr>proof_sum := proof_sum self + proof, proof_cnt := proof_cnt self + 1\<rparr>))"

definition work_for_proof :: "blockchain \<Rightarrow> (error + (int \<times> blockchain)) option" where
  "work_for_proof self =
     (case last_block self of
        Inl e \<Rightarrow> Some (Inl e)
      | Inr b \<Rightarrow> map_option Inr (proof_of_work self (block_proof b)))"




section \<open>PyCryptoSim\<close>

text \<open>
  The simulator's registry \<^verbatim>\<open>pairs\<close> maps a public identifier to its private one.
  \<open>u1\<close> and \<open>u2\<close> are the texts of the two \<^verbatim>\<open>uuid4()\<close> values that \<^verbatim>\<open>key_pair\<close>
  draws. Its \<^verbatim>\<open>while True\<close> loop leaves only when the public identifier is not yet
  registered; nothing changes between two rounds, so on a registered identifier the call
  does not return.
\<close>

record PyCryptoSim =
  pairs :: "string \<rightharpoonup> string"

definition remove_dashes :: "string \<Rightarrow> string" where
  \<comment> \<open>\<^verbatim>\<open>s.replace('-', '')\<close>\<close>
  "remove_dashes s = filter (\<lambda>c. c \<noteq> CHR ''-'') s"

definition key_pair ::
  "PyCryptoSim \<Rightarrow> string \<Rightarrow> string \<Rightarrow> string option
     \<Rightarrow> (error + ((string \<times> string) \<times> PyCryptoSim)) option" where
  "key_pair self u1 u2 msg_opt =
     (let msg = (case msg_opt of None \<Rightarrow> [] | Some m \<Rightarrow> m);
          public = remove_dashes (u1 @ msg);
          private = remove_dashes (u2 @ msg)
      in if pairs self public = None then
           (let self' = self\<lparr>pairs := (pairs self)(public \<mapsto> private)\<rparr>
            in if pairs self' public \<noteq> Some private then Some (Inl CryptoSimError)
               else Some (Inr ((public, private), self')))
         else None)"

definition commit :: "string \<Rightarrow> pyatom \<Rightarrow> string" where
  "commit private msg = sha256_hexdigest (take 64 (encode (private @ format_atom msg)))"

definition verify :: "PyCryptoSim \<Rightarrow> string \<Rightarrow> pyatom \<Rightarrow> pyatom \<Rightarrow> bool" where
  "verify self public msg cmt =
     (case pairs self public of
        None \<Rightarrow> False
      | Some my_sk \<Rightarrow> AStr (commit my_sk msg) = cmt)"

section \<open>Ent\<close>

text \<open>
  An entity's \<^verbatim>\<open>keys\<close> dict is an association list in insertion order, the order in
  which \<^verbatim>\<open>balance\<close> and \<^verbatim>\<open>gives\<close> visit it; \<open>AList.update\<close> is \<^verbatim>\<open>d[k] = v\<close>.
\<close>

record Ent =
  name :: string
  keys :: "(string \<times> string) list"
  crypto :: PyCryptoSim

definition new_address :: "Ent \<Rightarrow> string \<Rightarrow> string \<Rightarrow> (error + (string \<times> Ent)) option" where
  "new_address self u1 u2 =
     (case key_pair (crypto self) u1 u2 None of
        None \<Rightarrow> None
      | Some (Inl e) \<Rightarrow> Some (Inl e)
      | Some (Inr ((public, private), cr)) \<Rightarrow>
          Some (Inr (public, self\<lparr>keys := AList.update public private (keys self), crypto := cr\<rparr>)))"

text \<open>
  \<^verbatim>\<open>balance\<close>. Each check draws a fresh message (\<^verbatim>\<open>str(time())\<close> for a sender,
  \<^verbatim>\<open>uuid4()\<close> for a recipient): \<open>fresh n\<close> is the text of the \<open>n\<close>-th draw of the call,
  and the state of the loops is the number of draws so far with the \<^verbatim>\<open>balance\<close> dict.
  \<^verbatim>\<open>balance[pk] -= amount\<close> is \<open>AList.map_entry\<close>: every \<open>pk\<close> has an entry, set to 0 by
  the first loop.
\<close>

definition balance_tx ::
  "PyCryptoSim \<Rightarrow> (nat \<Rightarrow> string) \<Rightarrow> string \<Rightarrow> string \<Rightarrow> transaction
     \<Rightarrow> nat \<times> (string \<times> int) list \<Rightarrow> nat \<times> (string \<times> int) list" where
  "balance_tx cr fresh pk sk t st =
     (case st of (n, bal) \<Rightarrow>
        (case (if PyStr pk = sender t then
                 (let msg = AStr (fresh n) in
                  (n + 1, if verify cr pk msg (AStr (commit sk msg))
                          then AList.map_entry pk (\<lambda>b. b - amount t) bal else bal))
               else (n, bal)) of
           (n1, bal1) \<Rightarrow>
             (if PyStr pk = recipient t then
                (let msg = AStr (fresh n1) in
                 (n1 + 1, if verify cr pk msg (AStr (commit sk msg))
                          then AList.map_entry pk (\<lambda>b. b + amount t) bal1 else bal1))
              else (n1, bal1))))"

definition balance_block ::
  "PyCryptoSim \<Rightarrow> (nat \<Rightarrow> string) \<Rightarrow> string \<Rightarrow> string \<Rightarrow> block
     \<Rightarrow> nat \<times> (string \<times> int) list \<Rightarrow> nat \<times> (string \<times> int) list" where
  "balance_block cr fresh pk sk b st =
     (if transactions b = [] then st
      else fold (balance_tx cr fresh pk sk) (transactions b) st)"

definition balance :: "Ent \<Rightarrow> blockchain \<Rightarrow> (nat \<Rightarrow> string) \<Rightarrow> int \<times> (string \<times> int) list" where
  "balance self blockchain fresh =
     (let bal0 = fold (\<lambda>(pk, sk) bal. AList.update pk 0 bal) (keys self) [];
          st = fold (\<lambda>(pk, sk) st. fold (balance_block (crypto self) fresh pk sk) (chain blockchain) st)
                 (keys self) (0, bal0);
          total = fold (\<lambda>(pk, b) total. total + b) (snd st) 0
      in (total, snd st))"

text \<open>
  \<^verbatim>\<open>gives\<close>. The loop over \<^verbatim>\<open>balance.items()\<close> carries \<open>due\<close>, the fork \<open>copy\<close>, the
  recipient entity (whose \<^verbatim>\<open>new_address\<close> changes it) and the number \<open>k\<close> of transactions
  emitted; \<open>now k\<close> is \<^verbatim>\<open>int(time())\<close> and \<open>uuids k\<close> the two \<^verbatim>\<open>uuid4()\<close> texts of the
  \<open>k\<close>-th emission. The signature is \<^verbatim>\<open>commit(payer, msg)\<close>, on the payer's address.
\<close>

fun gives_loop ::
  "(nat \<Rightarrow> int) \<Rightarrow> (nat \<Rightarrow> string \<times> string) \<Rightarrow> (string \<times> int) list \<Rightarrow> int \<Rightarrow> nat
     \<Rightarrow> blockchain \<Rightarrow> Ent \<Rightarrow> (error + (blockchain \<times> Ent)) option" where
  "gives_loop now uuids [] due k copy recepient = Some (Inr (copy, recepient))"
| "gives_loop now uuids ((payer, coins) # rest) due k copy recepient =
     (if coins < 0 then Some (Inl (NegativeBalance payer))
      else if coins = 0 then gives_loop now uuids rest due k copy recepient
      else
        (let pay = (if due > coins then coins else due);
             due' = due - pay;
             msg = AInt (now k)
         in case new_address recepient (fst (uuids k)) (snd (uuids k)) of
              None \<Rightarrow> None
            | Some (Inl e) \<Rightarrow> Some (Inl e)
            | Some (Inr (addr, recepient')) \<Rightarrow>
                (case new_transaction copy (PyStr payer) (PyStr addr) pay
                        (AStr (commit payer msg)) msg of
                   Inl e \<Rightarrow> Some (Inl e)
                 | Inr (i, copy') \<Rightarrow>
                     if due' = 0 then Some (Inr (copy', recepient'))
                     else if due' < 0 then Some (Inl Overpayed)
                     else gives_loop now uuids rest due' (k + 1) copy' recepient')))"

definition seal ::
  "blockchain \<Rightarrow> pyfloat \<Rightarrow> (error + blockchain) option" where
  \<comment> \<open>the last four statements of \<^verbatim>\<open>gives\<close>\<close>
  "seal copy ts =
     (case last_block copy of
        Inl e \<Rightarrow> Some (Inl e)
      | Inr last_blk \<Rightarrow>
          (case work_for_proof copy of
             None \<Rightarrow> None
           | Some (Inl e) \<Rightarrow> Some (Inl e)
           | Some (Inr (proof, copy')) \<Rightarrow>
               (case new_block copy' proof (Some (hash last_blk)) ts of
                  Inl e \<Rightarrow> Some (Inl e)
                | Inr (b, copy'') \<Rightarrow> Some (Inr copy''))))"

definition gives ::
  "Ent \<Rightarrow> blockchain \<Rightarrow> Ent \<Rightarrow> int \<Rightarrow> pyfloat \<Rightarrow> (nat \<Rightarrow> string) \<Rightarrow> (nat \<Rightarrow> int)
     \<Rightarrow> (nat \<Rightarrow> string \<times> string) \<Rightarrow> pyfloat \<Rightarrow> (error + (blockchain \<times> Ent)) option" where
  "gives self blockchain recepient amnt ts_clone fresh now uuids ts_block =
     (case clone blockchain ts_clone of
        Inl e \<Rightarrow> Some (Inl e)
      | Inr copy \<Rightarrow>
          (case balance self blockchain fresh of
             (held, bal) \<Rightarrow>
               if amnt > held then Some (Inl InsufficientBalance)
               else
                 (case gives_loop now uuids bal amnt 0 copy recepient of
                    None \<Rightarrow> None
                  | Some (Inl e) \<Rightarrow> Some (Inl e)
                  | Some (Inr (copy', recepient')) \<Rightarrow>
                      (case seal copy' ts_block of
                         None \<Rightarrow> None
                       | Some (Inl e) \<Rightarrow> Some (Inl e)
                       | Some (Inr fork) \<Rightarrow> Some (Inr (fork, recepient'))))))"

text \<open>
  \<^verbatim>\<open>mine\<close>. \<open>skip\<close> is the value of \<^verbatim>\<open>speed and random.random() > 1.0/speed\<close>; the result
  \<open>None\<close> inside is Python's \<^verbatim>\<open>return None\<close>.
\<close>

definition mine ::
  "Ent \<Rightarrow> blockchain \<Rightarrow> bool \<Rightarrow> pyfloat \<Rightarrow> string \<times> string \<Rightarrow> pyfloat
     \<Rightarrow> (error + (blockchain option \<times> Ent)) option" where
  "mine self blockchain skip ts_clone uu ts_block =
     (if skip then Some (Inr (None, self))
      else
        (case clone blockchain ts_clone of
           Inl e \<Rightarrow> Some (Inl e)
         | Inr copy \<Rightarrow>
             (case last_block copy of
                Inl e \<Rightarrow> Some (Inl e)
              | Inr last_blk \<Rightarrow>
                  (case work_for_proof copy of
                     None \<Rightarrow> None
                   | Some (Inl e) \<Rightarrow> Some (Inl e)
                   | Some (Inr (proof, copy1)) \<Rightarrow>
                       (case new_address self (fst uu) (snd uu) of
                          None \<Rightarrow> None
                        | Some (Inl e) \<Rightarrow> Some (Inl e)
                        | Some (Inr (addr, self')) \<Rightarrow>
                            (case new_transaction copy1 (PyStr ''from mine'') (PyStr addr) 1
                                    ANone ANone of
                               Inl e \<Rightarrow> Some (Inl e)
                             | Inr (i, copy2) \<Rightarrow>
                                 (case new_block copy2 proof (Some (hash last_blk)) ts_block of
                                    Inl e \<Rightarrow> Some (Inl e)
                                  | Inr (b, copy3) \<Rightarrow> Some (Inr (Some copy3, self')))))))))"

text \<open>
  \<^verbatim>\<open>some_fake\<close>: the first block, and in it the first transaction, whose recipient is
  truthy gets a copy of that transaction appended, the recipient replaced by the
  one-element tuple \<^verbatim>\<open>(self.new_address(),)\<close>. \<open>i\<close> is the index of the block at the
  head of the list still to visit.
\<close>

fun some_fake_loop ::
  "Ent \<Rightarrow> string \<times> string \<Rightarrow> blockchain \<Rightarrow> block list \<Rightarrow> nat
     \<Rightarrow> (error + (blockchain \<times> Ent)) option" where
  "some_fake_loop self uu faked [] i = Some (Inr (faked, self))"
| "some_fake_loop self uu faked (b # rest) i =
     (case find (\<lambda>t. truthy (recipient t)) (transactions b) of
        None \<Rightarrow> some_fake_loop self uu faked rest (i + 1)
      | Some t \<Rightarrow>
          (case new_address self (fst uu) (snd uu) of
             None \<Rightarrow> None
           | Some (Inl e) \<Rightarrow> Some (Inl e)
           | Some (Inr (addr, self')) \<Rightarrow>
               (let t' = t\<lparr>recipient := PyTuple [PyStr addr]\<rparr>;
                    b' = b\<lparr>transactions := transactions b @ [t']\<rparr>
                in Some (Inr (faked\<lparr>chain := (chain faked)[i := b']\<rparr>, self')))))"

definition some_fake ::
  "Ent \<Rightarrow> blockchain \<Rightarrow> pyfloat \<Rightarrow> string \<times> string \<Rightarrow> (error + (blockchain \<times> Ent)) option" where
  "some_fake self blockchain ts_clone uu =
     (case clone blockchain ts_clone of
        Inl e \<Rightarrow> Some (Inl e)
      | Inr faked \<Rightarrow> some_fake_loop self uu faked (chain faked) 0)"

definition validate_blockchain :: "Ent \<Rightarrow> blockchain \<Rightarrow> error + string" where
  "validate_blockchain self blockchain =
     (case valid_chain blockchain (chain blockchain) True of
        Inl e \<Rightarrow> Inl e
      | Inr ok \<Rightarrow>
          Inr (name self @ '' '' @ (if ok then ''accepts'' else ''rejects'') @ '' the blockchain''))"

section \<open>Ledgers built by the operations\<close>

text \<open>
  The ledgers that the constructor, \<^verbatim>\<open>new_transaction\<close>, \<^verbatim>\<open>work_for_proof\<close> and
  \<^verbatim>\<open>new_block\<close> build, where every \<^verbatim>\<open>new_block\<close> after the genesis one is called with
  \<open>prev_hash\<close> omitted, empty or the hash of the block that is last at that moment.
\<close>

inductive produced :: "blockchain \<Rightarrow> bool" where
  produced_init: "Blockchain proof rate ts = Inr bc \<Longrightarrow> produced bc"
| produced_transaction:
    "produced bc \<Longrightarrow> new_transaction bc sndr rcpt amt sg msg = Inr (i, bc') \<Longrightarrow> produced bc'"
| produced_work:
    "produced bc \<Longrightarrow> work_for_proof bc = Some (Inr (proof, bc')) \<Longrightarrow> produced bc'"
| produced_block:
    "produced bc \<Longrightarrow>
     prev_hash = None \<or> prev_hash = Some [] \<or> prev_hash = Some (hash (last (chain bc))) \<Longrightarrow>
     new_block bc proof prev_hash ts = Inr (b, bc') \<Longrightarrow> produced bc'"

definition linked :: "block list \<Rightarrow> bool" where
  "linked chn \<longleftrightarrow>
     chn \<noteq> [] \<and> previous_hash (chn ! 0) = ''1''
     \<and> (\<forall>i. 1 \<le> i \<and> i < length chn \<longrightarrow> previous_hash (chn ! i) = hash (chn ! (i - 1)))"

section \<open>Example data\<close>

text \<open>
  A genesis block whose proof 88914 is followed by the valid proof 0 at difficulty 4, a
  block sealed on it, ledgers over a given chain, and entities whose simulator registers
  exactly the keys they hold.
\<close>

definition ex_genesis :: block where
  "ex_genesis = \<lparr>index = 1, timestamp = FloatRepr ''1.0'', transactions = [],
                  block_proof = 88914, previous_hash = ''1''\<rparr>"

definition ex_tx :: transaction where
  "ex_tx = \<lparr>sender = PyStr ''from mine'', recipient = PyStr ''x1'', amount = 1, sigmsg = None\<rparr>"

definition ex_sealed :: block where
  "ex_sealed = \<lparr>index = 2, timestamp = FloatRepr ''2.0'', transactions = [ex_tx],
                 block_proof = 0, previous_hash = hash ex_genesis\<rparr>"

definition ex_ledger :: "int \<Rightarrow> block list \<Rightarrow> blockchain" where
  "ex_ledger rate chn = \<lparr>current_transactions = [], chain = chn, nodes = {}, mining_rate = rate,
                          proof_sum = 0, proof_cnt = 0\<rparr>"

definition ex_ent :: "(string \<times> string) list \<Rightarrow> Ent" where
  "ex_ent ks = \<lparr>name = ''A'', keys = ks, crypto = \<lparr>pairs = map_of ks\<rparr>\<rparr>"

text \<open>
  The \<^verbatim>\<open>uuid4()\<close> draws of a call are fresh for an entity when no public identifier made
  from them is registered in its simulator and no two of them are equal, so that no
  \<^verbatim>\<open>key_pair\<close> of the call loops.
\<close>

definition fresh_uuids :: "Ent \<Rightarrow> (nat \<Rightarrow> string \<times> string) \<Rightarrow> bool" where
  "fresh_uuids r uuids \<longleftrightarrow>
     (\<forall>k. pairs (crypto r) (remove_dashes (fst (uuids k))) = None)
     \<and> (\<forall>j k. remove_dashes (fst (uuids j)) = remove_dashes (fst (uuids k)) \<longrightarrow> j = k)"

text \<open>Further ledgers for the examples: an entity's address X receives 3; and address W
  receives 1, X receives 5 and Y pays 2, in a block whose proof is 88914.\<close>

definition ex_chain3 :: "block list" where
  "ex_chain3 =
     [ex_genesis,
      \<lparr>index = 2, timestamp = FloatRepr ''2.0'',
       transactions = [\<lparr>sender = PyStr ''from mine'', recipient = PyStr ''X'', amount = 3,
                        sigmsg = None\<rparr>],
       block_proof = 0, previous_hash = hash ex_genesis\<rparr>]"

definition ex_chain_neg :: "block list" where
  "ex_chain_neg =
     [ex_genesis,
      \<lparr>index = 2, timestamp = FloatRepr ''2.0'',
       transactions =
         [\<lparr>sender = PyStr ''from mine'', recipient = PyStr ''W'', amount = 1, sigmsg = None\<rparr>,
          \<lparr>sender = PyStr ''from mine'', recipient = PyStr ''X'', amount = 5, sigmsg = None\<rparr>,
          \<lparr>sender = PyStr ''Y'', recipient = PyStr ''z'', amount = 2, sigmsg = None\<rparr>],
       block_proof = 88914, previous_hash = hash ex_genesis\<rparr>]"

text \<open>A transaction that debits X and carries a signature nobody made, in a block.\<close>

definition ex_forged_tx :: transaction where
  "ex_forged_tx = \<lparr>sender = PyStr ''X'', recipient = PyStr ''z'', amount = 5,
                    sigmsg = Some (AStr ''bogus'', AStr ''m'')\<rparr>"

definition ex_chain_forged :: "block list" where
  "ex_chain_forged =
     [ex_genesis,
      \<lparr>index = 2, timestamp = FloatRepr ''2.0'', transactions = [ex_forged_tx],
       block_proof = 0, previous_hash = hash ex_genesis\<rparr>]"



section \<open>Notions the properties are stated with\<close>


text \<open>
  What the transactions of a chain that name an address move: the amounts it receives
  minus the amounts it sends.
\<close>

definition net_flow :: "string \<Rightarrow> block list \<Rightarrow> int" where
  "net_flow pk chn =
     (\<Sum>t\<leftarrow>concat (map transactions chn).
        (if PyStr pk = recipient t then amount t else 0)
        - (if PyStr pk = sender t then amount t else 0))"

text \<open>A chain with the recorded signature and message of every transaction replaced.\<close>

definition resign ::
  "(transaction \<Rightarrow> (pyatom \<times> pyatom) option) \<Rightarrow> block list \<Rightarrow> block list" where
  "resign f chn =
     map (\<lambda>b. b\<lparr>transactions := map (\<lambda>t. t\<lparr>sigmsg := f t\<rparr>) (transactions b)\<rparr>) chn"

(*DEFS-END*)

section \<open>Digests and the proof predicate\<close>

lemma length_hex32: "length (hex32 w) = 8"
  by (simp add: hex32_def)

lemma length_sha256_hexdigest: "length (sha256_hexdigest m) = 64"
  unfolding sha256_hexdigest_def
  by (cases "sha256 m" rule: hexdigest.cases) (simp add: length_hex32)

lemma hash_nonempty: "hash b \<noteq> []"
  using length_sha256_hexdigest [of "encode (json_block b)"] by (auto simp: hash_def)

text \<open>
  The slice \<^verbatim>\<open>guess_hash[:4]\<close> always has four characters, so the predicate can hold at
  difficulty 4 only.
\<close>

lemma valid_proof_rate: "valid_proof last_proof proof rate \<Longrightarrow> rate = 4"
proof -
  assume "valid_proof last_proof proof rate"
  then have "length (take 4 (sha256_hexdigest (encode (str_int last_proof @ str_int proof))))
             = length (replicate (nat rate) CHR ''0'')"
    by (simp add: valid_proof_def Let_def)
  then show "rate = 4"
    by (simp add: length_sha256_hexdigest)
qed

text \<open>
  C1. The claim: \<^verbatim>\<open>valid_proof\<close> holds exactly when the first \<open>difficulty\<close> characters of
  the digest are zeros, so at difficulty 0 it holds for every input, for example
  \<^verbatim>\<open>valid_proof(100, 0, 0)\<close>. The code compares the first four characters with
  \<open>difficulty\<close> zeros, and \<^verbatim>\<open>valid_proof(100, 0, 0)\<close> is false.
\<close>

theorem valid_proof_difficulty_zero: "valid_proof 100 0 0 = False"
  using valid_proof_rate [of 100 0 0] by auto

section \<open>Validation of a chain\<close>

text \<open>
  C10. \<^verbatim>\<open>valid_chain\<close> raises \<^verbatim>\<open>IndexError\<close> on the empty chain, accepts every chain
  of one block whatever it holds, and returns a boolean on every chain that is not empty.
\<close>

theorem valid_chain_nonempty_total:
  "valid_chain self [] silence = Inl IndexError
   \<and> valid_chain self [b] silence = Inr True
   \<and> (chn \<noteq> [] \<longrightarrow> (\<exists>ok. valid_chain self chn silence = Inr ok))"
  by (cases chn) (simp_all add: valid_chain_def)

theorem valid_chain_nonempty_total_witness:
  "\<exists>ok. valid_chain
           \<lparr>current_transactions = [], chain = [], nodes = {}, mining_rate = 4,
            proof_sum = 0, proof_cnt = 0\<rparr>
           [\<lparr>index = 1, timestamp = FloatRepr ''0.5'', transactions = [], block_proof = 100,
             previous_hash = ''1''\<rparr>,
            \<lparr>index = 2, timestamp = FloatRepr ''1.5'', transactions = [], block_proof = 7,
             previous_hash = ''x''\<rparr>]
           True = Inr ok"
  using valid_chain_nonempty_total
    [of _ _ _ "[\<lparr>index = 1, timestamp = FloatRepr ''0.5'', transactions = [], block_proof = 100,
                  previous_hash = ''1''\<rparr>,
                \<lparr>index = 2, timestamp = FloatRepr ''1.5'', transactions = [], block_proof = 7,
                  previous_hash = ''x''\<rparr>]"]
  by simp

section \<open>The operations of a ledger\<close>

lemma new_block_Inr:
  "new_block self proof prev_hash ts = Inr (b, self') \<Longrightarrow>
     self' = self\<lparr>current_transactions := [], chain := chain self @ [b]\<rparr>
     \<and> block_proof b = proof \<and> transactions b = current_transactions self
     \<and> index b = int (length (chain self)) + 1 \<and> timestamp b = ts"
  by (auto simp: new_block_def Let_def split: sum.splits)

lemma new_block_previous_hash:
  "new_block self proof prev_hash ts = Inr (b, self') \<Longrightarrow> chain self \<noteq> [] \<Longrightarrow>
   prev_hash = None \<or> prev_hash = Some [] \<or> prev_hash = Some (hash (last (chain self))) \<Longrightarrow>
   previous_hash b = hash (last (chain self))"
  by (auto simp: new_block_def Let_def last_block_def split: sum.splits if_splits)

lemma Blockchain_eq:
  "Blockchain proof rate ts =
     Inr \<lparr>current_transactions = [],
          chain = [\<lparr>index = 1, timestamp = ts, transactions = [], block_proof = proof,
                    previous_hash = ''1''\<rparr>],
          nodes = {}, mining_rate = rate, proof_sum = 0, proof_cnt = 0\<rparr>"
  by (simp add: Blockchain_def new_block_def Let_def)

lemma clone_eq:
  "clone self ts =
     Inr \<lparr>current_transactions = current_transactions self, chain = chain self,
          nodes = nodes self, mining_rate = 4, proof_sum = 0, proof_cnt = 0\<rparr>"
  by (simp add: clone_def Blockchain_eq)

lemma new_transaction_Inr:
  "new_transaction self sndr rcpt amt sg msg = Inr (i, self') \<Longrightarrow>
     chain self' = chain self \<and> mining_rate self' = mining_rate self \<and> nodes self' = nodes self
     \<and> proof_sum self' = proof_sum self \<and> proof_cnt self' = proof_cnt self"
  by (auto simp: new_transaction_def Let_def last_block_def split: if_splits)

lemma work_for_proof_Inr:
  "work_for_proof self = Some (Inr (proof, self')) \<Longrightarrow>
     chain self' = chain self \<and> mining_rate self' = mining_rate self
     \<and> current_transactions self' = current_transactions self"
  by (auto simp: work_for_proof_def proof_of_work_def last_block_def
           split: if_splits option.splits)

section \<open>Hash linkage\<close>

lemma linked_snoc:
  assumes "linked chn" and "previous_hash b = hash (last chn)"
  shows "linked (chn @ [b])"
proof -
  from assms(1) have ne: "chn \<noteq> []" by (simp add: linked_def)
  have "previous_hash ((chn @ [b]) ! i) = hash ((chn @ [b]) ! (i - 1))"
    if "1 \<le> i" "i < length (chn @ [b])" for i
  proof (cases "i < length chn")
    case True
    with that assms(1) show ?thesis by (auto simp: linked_def nth_append)
  next
    case False
    with that have "i = length chn" by simp
    with ne assms(2) show ?thesis by (simp add: nth_append last_conv_nth)
  qed
  with assms(1) ne show ?thesis by (simp add: linked_def nth_append)
qed

text \<open>
  C8. In every ledger built from the constructor by \<^verbatim>\<open>new_transaction\<close>,
  \<^verbatim>\<open>work_for_proof\<close> and \<^verbatim>\<open>new_block\<close>, where each \<^verbatim>\<open>new_block\<close> gets no previous hash,
  an empty one or the hash of the block last at that moment, the genesis block's
  \<^verbatim>\<open>previous_hash\<close> is \<^verbatim>\<open>"1"\<close> and every later block's \<^verbatim>\<open>previous_hash\<close> is the hash of the
  block before it.
\<close>

theorem produced_chain_linked:
  "produced bc \<Longrightarrow>
     chain bc \<noteq> [] \<and> previous_hash (chain bc ! 0) = ''1''
     \<and> (\<forall>i. 1 \<le> i \<and> i < length (chain bc) \<longrightarrow>
            previous_hash (chain bc ! i) = hash (chain bc ! (i - 1)))"
proof -
  assume "produced bc"
  then have "linked (chain bc)"
  proof (induction rule: produced.induct)
    case (produced_init p rate ts bc)
    then show ?case by (auto simp: Blockchain_eq linked_def)
  next
    case (produced_transaction bc sndr rcpt amt sg msg i bc')
    then show ?case using new_transaction_Inr by metis
  next
    case (produced_work bc p bc')
    then show ?case using work_for_proof_Inr by metis
  next
    case (produced_block bc prev_hash p ts b bc')
    from produced_block.IH have "chain bc \<noteq> []" by (simp add: linked_def)
    with produced_block.hyps have "previous_hash b = hash (last (chain bc))"
      using new_block_previous_hash by blast
    with produced_block.IH have "linked (chain bc @ [b])" by (rule linked_snoc)
    with produced_block.hyps(3) show ?case using new_block_Inr [OF produced_block.hyps(3)] by simp
  qed
  then show ?thesis by (simp add: linked_def)
qed

section \<open>Proof of work\<close>

text \<open>
  The digest of \<^verbatim>\<open>"889140"\<close> starts with four zeros: after a block of proof 88914 the
  search returns 0 at once.
\<close>

lemma guess_88914: "encode (str_int 88914 @ str_int 0) = [56, 56, 57, 49, 52, 48]"
  by code_simp

lemma digest_88914: "take 4 (sha256_hexdigest [56, 56, 57, 49, 52, 48]) = ''0000''"
  by code_simp

lemma valid_proof_88914: "valid_proof 88914 0 4"
  unfolding valid_proof_def Let_def guess_88914 digest_88914
  by (simp add: eval_nat_numeral)

lemma proof_search_valid:
  assumes "proof_search lp r p0 = Some p"
  shows "valid_proof lp p r"
  by (rule proof_search.raw_induct [where P = "\<lambda>lp r p0 p. valid_proof lp p r", OF _ assms])
     (auto split: if_splits)

lemma proof_search_88914: "proof_search 88914 4 0 = Some 0"
  by (subst proof_search.simps) (simp add: valid_proof_88914)

section \<open>Forks built by an entity\<close>

lemma seal_Inr:
  assumes "seal copy ts = Some (Inr fork)"
  shows "\<exists>b. chain fork = chain copy @ [b] \<and> mining_rate fork = mining_rate copy
             \<and> chain copy \<noteq> [] \<and> previous_hash b = hash (last (chain copy))
             \<and> transactions b = current_transactions copy
             \<and> valid_proof (block_proof (last (chain copy))) (block_proof b) (mining_rate copy)"
proof -
  from assms have ne: "chain copy \<noteq> []"
    by (auto simp: seal_def last_block_def split: if_splits)
  from assms ne obtain p c1 b where
    w: "work_for_proof copy = Some (Inr (p, c1))" and
    n: "new_block c1 p (Some (hash (last (chain copy)))) ts = Inr (b, fork)"
    by (auto simp: seal_def last_block_def split: option.splits sum.splits)
  from w ne have ps: "proof_search (block_proof (last (chain copy))) (mining_rate copy) 0 = Some p"
    by (auto simp: work_for_proof_def proof_of_work_def last_block_def split: option.splits)
  from w have c1: "chain c1 = chain copy" "mining_rate c1 = mining_rate copy"
    "current_transactions c1 = current_transactions copy"
    using work_for_proof_Inr by blast+
  from n have ph: "previous_hash b = hash (last (chain copy))"
    by (auto simp: new_block_def Let_def hash_nonempty)
  from new_block_Inr [OF n] c1 ps ph ne show ?thesis
    by (auto dest: proof_search_valid)
qed

lemma gives_loop_frame:
  "gives_loop now uuids bal due k copy recepient = Some (Inr (copy', recepient')) \<Longrightarrow>
     chain copy' = chain copy \<and> mining_rate copy' = mining_rate copy"
proof (induction now uuids bal due k copy recepient rule: gives_loop.induct)
  case (1 now uuids due k copy recepient)
  then show ?case by simp
next
  case (2 now uuids payer coins rest due k copy recepient)
  show ?case
  proof (cases "coins \<le> 0")
    case True
    with 2 show ?thesis by (auto split: if_splits)
  next
    case False
    with "2.prems" obtain addr r1 i c1 where
      na: "new_address recepient (fst (uuids k)) (snd (uuids k)) = Some (Inr (addr, r1))" and
      nt: "new_transaction copy (PyStr payer) (PyStr addr) (if due > coins then coins else due)
             (AStr (commit payer (AInt (now k)))) (AInt (now k)) = Inr (i, c1)"
      by (auto simp: Let_def split: option.splits sum.splits if_splits)
    from nt have fr: "chain c1 = chain copy \<and> mining_rate c1 = mining_rate copy"
      using new_transaction_Inr by blast
    show ?thesis
    proof (cases "due - (if due > coins then coins else due) = 0")
      case True
      with False "2.prems" na nt fr show ?thesis by (auto simp: Let_def)
    next
      case nz: False
      with False "2.prems" na nt have
        "gives_loop now uuids rest (due - (if due > coins then coins else due)) (k + 1) c1 r1
           = Some (Inr (copy', recepient'))"
        by (auto simp: Let_def split: if_splits)
      with "2.IH"(2) False nz na nt fr show ?thesis
        by (auto simp: Let_def split: if_splits)
    qed
  qed
qed

lemma gives_Inr:
  assumes "gives self blockchain recepient amnt ts fresh now uuids ts' = Some (Inr (fork, r'))"
  shows "mining_rate fork = 4
         \<and> (\<exists>b. chain fork = chain blockchain @ [b] \<and> chain blockchain \<noteq> []
                 \<and> previous_hash b = hash (last (chain blockchain))
                 \<and> valid_proof (block_proof (last (chain blockchain))) (block_proof b) 4)"
proof -
  let ?copy = "\<lparr>current_transactions = current_transactions blockchain, chain = chain blockchain,
                nodes = nodes blockchain, mining_rate = 4, proof_sum = 0, proof_cnt = 0\<rparr>"
  from assms obtain c1 where
    l: "gives_loop now uuids (snd (balance self blockchain fresh)) amnt 0 ?copy recepient
          = Some (Inr (c1, r'))" and
    s: "seal c1 ts' = Some (Inr fork)"
    by (auto simp: gives_def clone_eq split: prod.splits if_splits option.splits sum.splits)
  from gives_loop_frame [OF l] have "chain c1 = chain blockchain" "mining_rate c1 = 4" by simp_all
  with seal_Inr [OF s] show ?thesis by auto
qed

lemma mine_Inr:
  assumes "mine self blockchain skip ts uu ts' = Some (Inr (Some fork, self'))"
  shows "mining_rate fork = 4
         \<and> (\<exists>b. chain fork = chain blockchain @ [b] \<and> chain blockchain \<noteq> []
                 \<and> previous_hash b = hash (last (chain blockchain))
                 \<and> valid_proof (block_proof (last (chain blockchain))) (block_proof b) 4)"
proof -
  let ?copy = "\<lparr>current_transactions = current_transactions blockchain, chain = chain blockchain,
                nodes = nodes blockchain, mining_rate = 4, proof_sum = 0, proof_cnt = 0\<rparr>"
  from assms have ne: "chain blockchain \<noteq> []"
    by (auto simp: mine_def clone_eq last_block_def split: if_splits)
  from assms ne obtain p c1 addr i c2 b where
    w: "work_for_proof ?copy = Some (Inr (p, c1))" and
    t: "new_transaction c1 (PyStr ''from mine'') (PyStr addr) 1 ANone ANone = Inr (i, c2)" and
    n: "new_block c2 p (Some (hash (last (chain blockchain)))) ts' = Inr (b, fork)"
    by (auto simp: mine_def clone_eq last_block_def split: if_splits option.splits sum.splits)
  from w ne have ps: "proof_search (block_proof (last (chain blockchain))) 4 0 = Some p"
    by (auto simp: work_for_proof_def proof_of_work_def last_block_def split: option.splits)
  from w have c1: "chain c1 = chain blockchain" "mining_rate c1 = 4"
    using work_for_proof_Inr by fastforce+
  from t c1 have c2: "chain c2 = chain blockchain" "mining_rate c2 = 4"
    using new_transaction_Inr by fastforce+
  from n have ph: "previous_hash b = hash (last (chain blockchain))"
    by (auto simp: new_block_def Let_def hash_nonempty)
  from new_block_Inr [OF n] c2 ps ph ne show ?thesis
    by (auto dest: proof_search_valid)
qed

lemma valid_chain_loop_rate:
  "mining_rate s1 = mining_rate s2 \<Longrightarrow> valid_chain_loop s1 b rest = valid_chain_loop s2 b rest"
  by (induction rest arbitrary: b) simp_all

text \<open>
  C9. \<^verbatim>\<open>clone\<close> returns a ledger of difficulty 4 with both proof statistics 0, whatever
  the source's are, so validating the clone is validating at difficulty 4; and a fork that
  \<^verbatim>\<open>gives\<close> or \<^verbatim>\<open>mine\<close> returns has difficulty 4 and ends in a block whose proof is
  valid at difficulty 4 after the source's last block.
\<close>

theorem clone_resets_difficulty:
  "(\<exists>copy. clone self ts = Inr copy \<and> mining_rate copy = 4 \<and> proof_sum copy = 0
            \<and> proof_cnt copy = 0 \<and> chain copy = chain self
            \<and> validate_blockchain e copy = validate_blockchain e (self\<lparr>mining_rate := 4\<rparr>))
   \<and> (gives payer self recepient amnt ts fresh now uuids ts' = Some (Inr (fork, recepient')) \<longrightarrow>
        mining_rate fork = 4
        \<and> (\<exists>b. chain fork = chain self @ [b]
                \<and> valid_proof (block_proof (last (chain self))) (block_proof b) 4))
   \<and> (mine miner self skip ts uu ts' = Some (Inr (Some fork', miner')) \<longrightarrow>
        mining_rate fork' = 4
        \<and> (\<exists>b. chain fork' = chain self @ [b]
                \<and> valid_proof (block_proof (last (chain self))) (block_proof b) 4))"
proof (intro conjI impI)
  show "\<exists>copy. clone self ts = Inr copy \<and> mining_rate copy = 4 \<and> proof_sum copy = 0
            \<and> proof_cnt copy = 0 \<and> chain copy = chain self
            \<and> validate_blockchain e copy = validate_blockchain e (self\<lparr>mining_rate := 4\<rparr>)"
  proof -
    let ?copy = "\<lparr>current_transactions = current_transactions self, chain = chain self,
                  nodes = nodes self, mining_rate = 4, proof_sum = 0, proof_cnt = 0\<rparr>"
    have "valid_chain_loop ?copy b rest = valid_chain_loop (self\<lparr>mining_rate := 4\<rparr>) b rest"
      for b rest
      by (rule valid_chain_loop_rate) simp
    then have "validate_blockchain e ?copy = validate_blockchain e (self\<lparr>mining_rate := 4\<rparr>)"
      by (cases "chain self") (simp_all add: validate_blockchain_def valid_chain_def)
    then show ?thesis by (simp add: clone_eq)
  qed
next
  assume "gives payer self recepient amnt ts fresh now uuids ts' = Some (Inr (fork, recepient'))"
  from gives_Inr [OF this] show "mining_rate fork = 4" 
    and "\<exists>b. chain fork = chain self @ [b]
                \<and> valid_proof (block_proof (last (chain self))) (block_proof b) 4"
    by auto
next
  assume "mine miner self skip ts uu ts' = Some (Inr (Some fork', miner'))"
  from mine_Inr [OF this] show "mining_rate fork' = 4" 
    and "\<exists>b. chain fork' = chain self @ [b]
                \<and> valid_proof (block_proof (last (chain self))) (block_proof b) 4"
    by auto
qed

lemma ex_gives:
  "gives (ex_ent []) (ex_ledger 2 [ex_genesis]) (ex_ent []) 0 (FloatRepr ''3.0'') (\<lambda>n. ''m'')
     (\<lambda>k. 7) (\<lambda>k. (''u'', ''v'')) (FloatRepr ''4.0'')
   = Some (Inr (\<lparr>current_transactions = [],
                  chain = [ex_genesis,
                           \<lparr>index = 2, timestamp = FloatRepr ''4.0'', transactions = [],
                            block_proof = 0, previous_hash = hash ex_genesis\<rparr>],
                  nodes = {}, mining_rate = 4, proof_sum = 0, proof_cnt = 1\<rparr>, ex_ent []))"
  by (simp add: gives_def clone_eq balance_def ex_ent_def ex_ledger_def seal_def last_block_def
        work_for_proof_def proof_of_work_def ex_genesis_def proof_search_88914 new_block_def
        hash_nonempty Let_def)

lemma ex_mine:
  "mine (ex_ent []) (ex_ledger 2 [ex_genesis]) False (FloatRepr ''3.0'') (''u-1'', ''v-1'')
     (FloatRepr ''4.0'')
   = Some (Inr (Some \<lparr>current_transactions = [],
                  chain = [ex_genesis,
                           \<lparr>index = 2, timestamp = FloatRepr ''4.0'',
                            transactions = [\<lparr>sender = PyStr ''from mine'', recipient = PyStr ''u1'',
                                             amount = 1, sigmsg = None\<rparr>],
                            block_proof = 0, previous_hash = hash ex_genesis\<rparr>],
                  nodes = {}, mining_rate = 4, proof_sum = 0, proof_cnt = 1\<rparr>,
                \<lparr>name = ''A'', keys = [(''u1'', ''v1'')],
                 crypto = \<lparr>pairs = [''u1'' \<mapsto> ''v1'']\<rparr>\<rparr>))"
  by (simp add: mine_def clone_eq ex_ent_def ex_ledger_def last_block_def
        work_for_proof_def proof_of_work_def ex_genesis_def proof_search_88914 new_block_def
        new_transaction_def new_address_def key_pair_def remove_dashes_def hash_nonempty Let_def)


theorem clone_resets_difficulty_witness:
  "\<exists>fork r fork' m.
     gives (ex_ent []) (ex_ledger 2 [ex_genesis]) (ex_ent []) 0 (FloatRepr ''3.0'') (\<lambda>n. ''m'')
       (\<lambda>k. 7) (\<lambda>k. (''u'', ''v'')) (FloatRepr ''4.0'') = Some (Inr (fork, r))
     \<and> mining_rate fork = 4
     \<and> (\<exists>b. chain fork = [ex_genesis, b] \<and> valid_proof 88914 (block_proof b) 4)
     \<and> mine (ex_ent []) (ex_ledger 2 [ex_genesis]) False (FloatRepr ''3.0'') (''u-1'', ''v-1'')
         (FloatRepr ''4.0'') = Some (Inr (Some fork', m))
     \<and> mining_rate fork' = 4
     \<and> (\<exists>b. chain fork' = [ex_genesis, b] \<and> valid_proof 88914 (block_proof b) 4)
     \<and> mining_rate (ex_ledger 2 [ex_genesis]) = 2"
proof -
  note g = clone_resets_difficulty [THEN conjunct2, THEN conjunct1, THEN mp, OF ex_gives]
  note m = clone_resets_difficulty [THEN conjunct2, THEN conjunct2, THEN mp, OF ex_mine]
  from g m show ?thesis
    by (simp add: ex_gives ex_mine) (simp add: ex_ledger_def valid_proof_88914)
qed

section \<open>Tampering with a sealed block\<close>

lemma some_fake_two_blocks:
  assumes "chain blockchain = [g, b]"
    and "find (\<lambda>t. truthy (recipient t)) (transactions g) = None"
    and "find (\<lambda>t. truthy (recipient t)) (transactions b) = Some t"
    and "pairs (crypto self) (remove_dashes (fst uu)) = None"
  shows "\<exists>faked self'. some_fake self blockchain ts uu = Some (Inr (faked, self'))
           \<and> mining_rate faked = 4
           \<and> chain faked =
               [g, b\<lparr>transactions := transactions b
                      @ [t\<lparr>recipient := PyTuple [PyStr (remove_dashes (fst uu))]\<rparr>]\<rparr>]"
  using assms
  by (simp add: some_fake_def clone_eq new_address_def key_pair_def Let_def)

text \<open>
  C5. On a valid chain of two blocks, the genesis block holding no transaction with a
  recipient and the second block holding one, \<^verbatim>\<open>some_fake\<close> (drawing an identifier that
  is not registered yet) returns a fork whose second block has one more transaction, the
  copy with the substituted recipient, and \<^verbatim>\<open>valid_chain\<close> still accepts the fork's
  chain, called on the source ledger or on the fork itself.
\<close>

theorem some_fake_undetected:
  assumes "chain blockchain = [g, b]"
    and "find (\<lambda>t. truthy (recipient t)) (transactions g) = None"
    and "find (\<lambda>t. truthy (recipient t)) (transactions b) = Some t"
    and "valid_chain blockchain (chain blockchain) silence = Inr True"
    and "pairs (crypto self) (remove_dashes (fst uu)) = None"
  shows "\<exists>faked self'. some_fake self blockchain ts uu = Some (Inr (faked, self'))
           \<and> chain faked =
               [g, b\<lparr>transactions := transactions b
                      @ [t\<lparr>recipient := PyTuple [PyStr (remove_dashes (fst uu))]\<rparr>]\<rparr>]
           \<and> valid_chain blockchain (chain faked) silence = Inr True
           \<and> valid_chain faked (chain faked) silence = Inr True"
proof -
  from some_fake_two_blocks [OF assms(1,2,3,5)] obtain faked self' where
    f: "some_fake self blockchain ts uu = Some (Inr (faked, self'))" "mining_rate faked = 4"
       "chain faked =
          [g, b\<lparr>transactions := transactions b
                 @ [t\<lparr>recipient := PyTuple [PyStr (remove_dashes (fst uu))]\<rparr>]\<rparr>]"
    by blast
  from assms(1,4) have v: "previous_hash b = hash g"
    "valid_proof (block_proof g) (block_proof b) (mining_rate blockchain)"
    by (auto simp: valid_chain_def split: if_splits)
  from v(2) have "mining_rate blockchain = 4" by (rule valid_proof_rate)
  with v f show ?thesis by (auto simp: valid_chain_def)
qed

lemma ex_chain_valid:
  "valid_chain (ex_ledger 4 [ex_genesis, ex_sealed]) [ex_genesis, ex_sealed] True = Inr True"
  by (simp add: valid_chain_def ex_ledger_def ex_sealed_def valid_proof_88914)
     (simp add: ex_genesis_def valid_proof_88914)

theorem some_fake_undetected_witness:
  "\<exists>faked self'.
     some_fake (ex_ent []) (ex_ledger 4 [ex_genesis, ex_sealed]) (FloatRepr ''3.0'') (''u-1'', ''v-1'')
       = Some (Inr (faked, self'))
     \<and> chain faked =
         [ex_genesis,
          ex_sealed\<lparr>transactions := [ex_tx, ex_tx\<lparr>recipient := PyTuple [PyStr ''u1'']\<rparr>]\<rparr>]
     \<and> valid_chain faked (chain faked) True = Inr True"
proof -
  have h1: "chain (ex_ledger 4 [ex_genesis, ex_sealed]) = [ex_genesis, ex_sealed]"
    by (simp add: ex_ledger_def)
  have h2: "find (\<lambda>t. truthy (recipient t)) (transactions ex_genesis) = None"
    by (simp add: ex_genesis_def)
  have h3: "find (\<lambda>t. truthy (recipient t)) (transactions ex_sealed) = Some ex_tx"
    by (simp add: ex_sealed_def ex_tx_def)
  have h4: "valid_chain (ex_ledger 4 [ex_genesis, ex_sealed])
              (chain (ex_ledger 4 [ex_genesis, ex_sealed])) True = Inr True"
    using ex_chain_valid by (simp add: h1)
  have h5: "pairs (crypto (ex_ent [])) (remove_dashes (fst (''u-1'', ''v-1''))) = None"
    by (simp add: ex_ent_def)
  have r: "remove_dashes (fst (''u-1'', ''v-1'')) = ''u1''"
    by (simp add: remove_dashes_def)
  have t: "transactions ex_sealed = [ex_tx]"
    by (simp add: ex_sealed_def)
  from some_fake_undetected [OF h1 h2 h3 h4 h5, of "FloatRepr ''3.0''"] show ?thesis
    unfolding r t by auto
qed

text \<open>The ledger of the example data is built that way.\<close>

theorem produced_chain_linked_witness:
  "produced (ex_ledger 4 [ex_genesis, ex_sealed])
   \<and> previous_hash (chain (ex_ledger 4 [ex_genesis, ex_sealed]) ! 1)
       = hash (chain (ex_ledger 4 [ex_genesis, ex_sealed]) ! 0)
   \<and> previous_hash (chain (ex_ledger 4 [ex_genesis, ex_sealed]) ! 0) = ''1''"
proof -
  have p0: "produced (ex_ledger 4 [ex_genesis])"
    by (rule produced_init [of 88914 4 "FloatRepr ''1.0''"])
       (simp add: Blockchain_eq ex_ledger_def ex_genesis_def)
  have "new_transaction (ex_ledger 4 [ex_genesis]) (PyStr ''from mine'') (PyStr ''x1'') 1 ANone ANone
          = Inr (2, (ex_ledger 4 [ex_genesis])\<lparr>current_transactions := [ex_tx]\<rparr>)"
    by (simp add: new_transaction_def ex_ledger_def ex_tx_def last_block_def ex_genesis_def)
  with p0 have p1: "produced ((ex_ledger 4 [ex_genesis])\<lparr>current_transactions := [ex_tx]\<rparr>)"
    by (rule produced_transaction)
  have nb: "new_block ((ex_ledger 4 [ex_genesis])\<lparr>current_transactions := [ex_tx]\<rparr>) 0 None
          (FloatRepr ''2.0'') = Inr (ex_sealed, ex_ledger 4 [ex_genesis, ex_sealed])"
    by (simp add: new_block_def ex_ledger_def last_block_def ex_sealed_def Let_def)
  have p2: "produced (ex_ledger 4 [ex_genesis, ex_sealed])"
    by (rule produced_block [OF p1 _ nb]) simp
  let ?chn = "chain (ex_ledger 4 [ex_genesis, ex_sealed])"
  note l = produced_chain_linked [OF p2]
  from l have "1 \<le> (1::nat) \<and> 1 < length ?chn \<longrightarrow>
                 previous_hash (?chn ! 1) = hash (?chn ! (1 - 1))"
    by blast
  with l p2 show ?thesis
    by (simp add: ex_ledger_def)
qed

section \<open>Transfers\<close>

lemma gives_insufficient:
  "fst (balance self blockchain fresh) < amnt \<Longrightarrow>
     gives self blockchain recepient amnt ts fresh now uuids ts' = Some (Inl InsufficientBalance)"
  by (cases "balance self blockchain fresh") (simp add: gives_def clone_eq)

lemma verify_own:
  "verify \<lparr>pairs = m\<rparr> pk msg (AStr (commit sk msg))
     = (case m pk of None \<Rightarrow> False | Some my \<Rightarrow> commit my msg = commit sk msg)"
  by (simp add: verify_def split: option.splits)

lemma ex_balance3:
  "balance (ex_ent [(''X'', ''skX'')]) (ex_ledger 4 ex_chain3) (\<lambda>n. ''m'') = (3, [(''X'', 3)])"
  by (simp add: balance_def ex_ent_def ex_ledger_def ex_chain3_def ex_genesis_def
        balance_block_def balance_tx_def verify_own Let_def)

lemma gives_loop_zeros:
  "\<forall>(p, c) \<in> set pre. c = 0 \<Longrightarrow>
     gives_loop now uuids (pre @ rest) due k copy r = gives_loop now uuids rest due k copy r"
  by (induction pre) auto

lemma new_address_fresh:
  assumes "pairs (crypto r) (remove_dashes u1) = None"
  shows "new_address r u1 u2 =
           Some (Inr (remove_dashes u1,
                      r\<lparr>keys := AList.update (remove_dashes u1) (remove_dashes u2) (keys r),
                        crypto := (crypto r)\<lparr>pairs := (pairs (crypto r))
                                     (remove_dashes u1 \<mapsto> remove_dashes u2)\<rparr>\<rparr>))"
  using assms by (simp add: new_address_def key_pair_def Let_def)

lemma new_transaction_nonempty:
  "chain self \<noteq> [] \<Longrightarrow> \<exists>i self'. new_transaction self sndr rcpt amt sg msg = Inr (i, self')"
  by (simp add: new_transaction_def Let_def last_block_def)

lemma gives_loop_skip:
  assumes "\<forall>(p, c) \<in> set pre. 0 \<le> c"
    and "sum_list (map snd pre) < due"
    and "chain copy \<noteq> []"
    and "\<forall>j\<ge>k. pairs (crypto r) (remove_dashes (fst (uuids j))) = None"
    and "\<forall>i j. remove_dashes (fst (uuids i)) = remove_dashes (fst (uuids j)) \<longrightarrow> i = j"
  shows "\<exists>copy' r' k'.
           gives_loop now uuids (pre @ rest) due k copy r
             = gives_loop now uuids rest (due - sum_list (map snd pre)) k' copy' r'"
  using assms
proof (induction pre arbitrary: due k copy r)
  case Nil
  then show ?case by auto
next
  case (Cons pc pre)
  obtain p c where pc: "pc = (p, c)" by (cases pc)
  from Cons.prems(1) pc have c0: "0 \<le> c" and rest0: "\<forall>(p, c) \<in> set pre. 0 \<le> c" by auto
  from rest0 have sum0: "0 \<le> sum_list (map snd pre)"
    by (intro sum_list_nonneg) auto
  show ?case
  proof (cases "c = 0")
    case True
    with Cons.prems pc have "sum_list (map snd pre) < due" by simp
    from Cons.IH [OF rest0 this Cons.prems(3,4,5)] True pc show ?thesis by simp
  next
    case False
    with c0 have cpos: "0 < c" by simp
    from Cons.prems(2) pc sum0 have due: "c < due" "sum_list (map snd pre) < due - c" by auto
    from Cons.prems(4) have "pairs (crypto r) (remove_dashes (fst (uuids k))) = None" by simp
    note na = new_address_fresh [OF this, of "snd (uuids k)"]
    let ?r1 = "r\<lparr>keys := AList.update (remove_dashes (fst (uuids k)))
                     (remove_dashes (snd (uuids k))) (keys r),
                   crypto := (crypto r)\<lparr>pairs := (pairs (crypto r))
                      (remove_dashes (fst (uuids k)) \<mapsto> remove_dashes (snd (uuids k)))\<rparr>\<rparr>"
    from new_transaction_nonempty [OF Cons.prems(3)] obtain i c1 where
      nt: "new_transaction copy (PyStr p) (PyStr (remove_dashes (fst (uuids k)))) c
             (AStr (commit p (AInt (now k)))) (AInt (now k)) = Inr (i, c1)"
      by blast
    from nt Cons.prems(3) have c1: "chain c1 \<noteq> []"
      using new_transaction_Inr by metis
    have fr: "\<forall>j\<ge>k + 1. pairs (crypto ?r1) (remove_dashes (fst (uuids j))) = None"
    proof (intro allI impI)
      fix j
      assume j: "k + 1 \<le> j"
      then have "j \<noteq> k" by simp
      with Cons.prems(5) have "remove_dashes (fst (uuids j)) \<noteq> remove_dashes (fst (uuids k))"
        by blast
      with Cons.prems(4) j show "pairs (crypto ?r1) (remove_dashes (fst (uuids j))) = None"
        by simp
    qed
    from Cons.IH [OF rest0 due(2) c1 fr Cons.prems(5)] obtain copy' r' k' where
      "gives_loop now uuids (pre @ rest) (due - c) (k + 1) c1 ?r1
         = gives_loop now uuids rest (due - c - sum_list (map snd pre)) k' copy' r'"
      by blast
    with pc cpos due na nt show ?thesis
      by (auto simp: Let_def algebra_simps)
  qed
qed

text \<open>
  C7 (amended). When the amount does not exceed the total and the scan of the owned
  addresses, in the order of the \<^verbatim>\<open>balance\<close> dict, reaches an address with a negative
  balance before the amount is covered (every address before it has a balance of at least
  0, and these balances sum to less than the amount or are all 0), \<^verbatim>\<open>gives\<close> raises the
  negative-balance exception naming that address and returns no fork. The ledger has at
  least one block and the identifiers drawn for the recipient are fresh.
\<close>

theorem gives_negative_balance:
  assumes "amnt \<le> fst (balance self blockchain fresh)"
    and "snd (balance self blockchain fresh) = pre @ (payer, coins) # post"
    and "coins < 0"
    and "\<forall>(p, c) \<in> set pre. 0 \<le> c"
    and "sum_list (map snd pre) < amnt \<or> (\<forall>(p, c) \<in> set pre. c = 0)"
    and "chain blockchain \<noteq> []"
    and "fresh_uuids recepient uuids"
  shows "gives self blockchain recepient amnt ts fresh now uuids ts'
           = Some (Inl (NegativeBalance payer))"
proof -
  let ?copy = "\<lparr>current_transactions = current_transactions blockchain, chain = chain blockchain,
                nodes = nodes blockchain, mining_rate = 4, proof_sum = 0, proof_cnt = 0\<rparr>"
  have "\<exists>due' k' copy' r'.
          gives_loop now uuids (pre @ (payer, coins) # post) amnt 0 ?copy recepient
            = gives_loop now uuids ((payer, coins) # post) due' k' copy' r'"
  proof (cases "sum_list (map snd pre) < amnt")
    case True
    from assms(6) have "chain ?copy \<noteq> []" by simp
    from gives_loop_skip [OF assms(4) True this, of 0 recepient uuids] assms(7)
    show ?thesis unfolding fresh_uuids_def by blast
  next
    case False
    with assms(5) have "\<forall>(p, c) \<in> set pre. c = 0" by simp
    from gives_loop_zeros [OF this] show ?thesis by blast
  qed
  with assms(3) have
    "gives_loop now uuids (pre @ (payer, coins) # post) amnt 0 ?copy recepient
       = Some (Inl (NegativeBalance payer))"
    by auto
  with assms(1,2) show ?thesis
    by (cases "balance self blockchain fresh") (simp add: gives_def clone_eq)
qed


lemma ex_balance_neg1:
  "balance (ex_ent [(''X'', ''skX''), (''Y'', ''skY'')]) (ex_ledger 4 ex_chain_neg) (\<lambda>n. ''m'')
     = (3, [(''X'', 5), (''Y'', - 2)])"
  by (simp add: balance_def ex_ent_def ex_ledger_def ex_chain_neg_def ex_genesis_def
        balance_block_def balance_tx_def verify_own Let_def)

lemma ex_balance_neg2:
  "balance (ex_ent [(''W'', ''skW''), (''Y'', ''skY''), (''X'', ''skX'')]) (ex_ledger 4 ex_chain_neg)
     (\<lambda>n. ''m'') = (4, [(''W'', 1), (''Y'', - 2), (''X'', 5)])"
  by (simp add: balance_def ex_ent_def ex_ledger_def ex_chain_neg_def ex_genesis_def
        balance_block_def balance_tx_def verify_own Let_def)

text \<open>
  The claim as stated fails: the entity owns Y with balance -2 and asks for 3 out of a
  total of 3; X, visited first, covers the amount, the loop ends there, and a sealed fork
  is returned.
\<close>

theorem gives_negative_balance_counterexample:
  "snd (balance (ex_ent [(''X'', ''skX''), (''Y'', ''skY'')]) (ex_ledger 4 ex_chain_neg) (\<lambda>n. ''m''))
     = [(''X'', 5), (''Y'', - 2)]
   \<and> 3 \<le> fst (balance (ex_ent [(''X'', ''skX''), (''Y'', ''skY'')]) (ex_ledger 4 ex_chain_neg)
                (\<lambda>n. ''m''))
   \<and> (\<exists>fork r.
         gives (ex_ent [(''X'', ''skX''), (''Y'', ''skY'')]) (ex_ledger 4 ex_chain_neg) (ex_ent []) 3
           (FloatRepr ''3.0'') (\<lambda>n. ''m'') (\<lambda>k. 7) (\<lambda>k. (''u-1'', ''v-1'')) (FloatRepr ''4.0'')
         = Some (Inr (fork, r)))"
  by (simp add: ex_balance_neg1 gives_def clone_eq)
     (simp add: ex_ent_def ex_ledger_def ex_chain_neg_def new_address_def key_pair_def
        remove_dashes_def new_transaction_def last_block_def seal_def work_for_proof_def
        proof_of_work_def proof_search_88914 new_block_def hash_nonempty Let_def)

theorem gives_negative_balance_witness:
  "gives (ex_ent [(''W'', ''skW''), (''Y'', ''skY''), (''X'', ''skX'')]) (ex_ledger 4 ex_chain_neg)
     (ex_ent []) 3 (FloatRepr ''3.0'') (\<lambda>n. ''m'') (\<lambda>k. 7)
     (\<lambda>k. (replicate k CHR ''a'', ''v'')) (FloatRepr ''4.0'')
   = Some (Inl (NegativeBalance ''Y''))"
proof -
  let ?e = "ex_ent [(''W'', ''skW''), (''Y'', ''skY''), (''X'', ''skX'')]"
  let ?l = "ex_ledger 4 ex_chain_neg"
  have h1: "3 \<le> fst (balance ?e ?l (\<lambda>n. ''m''))"
    by (simp add: ex_balance_neg2)
  have h2: "snd (balance ?e ?l (\<lambda>n. ''m'')) = [(''W'', 1)] @ (''Y'', - 2) # [(''X'', 5)]"
    by (simp add: ex_balance_neg2)
  have h3: "(- 2 :: int) < 0" by simp
  have h4: "\<forall>(p, c) \<in> set [(''W'', 1 :: int)]. 0 \<le> c" by simp
  have h5: "sum_list (map snd [(''W'', 1 :: int)]) < 3 \<or> (\<forall>(p, c) \<in> set [(''W'', 1 :: int)]. c = 0)"
    by simp
  have h6: "chain ?l \<noteq> []"
    by (simp add: ex_ledger_def ex_chain_neg_def)
  have h7: "fresh_uuids (ex_ent []) (\<lambda>k. (replicate k CHR ''a'', ''v''))"
    by (simp add: fresh_uuids_def ex_ent_def remove_dashes_def)
  from gives_negative_balance [OF h1 h2 h3 h4 h5 h6 h7] show ?thesis .
qed

section \<open>Consensus\<close>






section \<open>Balances\<close>

lemma length_commit: "length (commit private msg) = 64"
  by (simp add: commit_def length_sha256_hexdigest)

lemma balance_tx_sigmsg_st:
  "balance_tx cr fresh pk sk (t\<lparr>sigmsg := x\<rparr>) st = balance_tx cr fresh pk sk t st"
  by (cases st) (simp add: balance_tx_def Let_def)

lemma balance_tx_sigmsg: "balance_tx cr fresh pk sk (t\<lparr>sigmsg := x\<rparr>) = balance_tx cr fresh pk sk t"
  by (rule ext) (rule balance_tx_sigmsg_st)

lemma balance_block_fold:
  "balance_block cr fresh pk sk b st = fold (balance_tx cr fresh pk sk) (transactions b) st"
  by (simp add: balance_block_def)

lemma balance_block_resign:
  "balance_block cr fresh pk sk (b\<lparr>transactions := map (\<lambda>t. t\<lparr>sigmsg := f t\<rparr>) (transactions b)\<rparr>)
     = balance_block cr fresh pk sk b"
  by (rule ext) (simp add: balance_block_fold fold_map comp_def balance_tx_sigmsg)

lemma balance_resign:
  "balance self (blockchain\<lparr>chain := resign f (chain blockchain)\<rparr>) fresh = balance self blockchain fresh"
  by (simp add: balance_def resign_def fold_map comp_def balance_block_resign)

lemma fold_total: "fold (\<lambda>(pk, b) total. total + b) bal (a::int) = a + sum_list (map snd bal)"
  by (induction bal arbitrary: a) auto

lemma balance_total:
  "fst (balance self blockchain fresh) = sum_list (map snd (snd (balance self blockchain fresh)))"
  by (simp add: balance_def Let_def fold_total)

lemma balance_tx_other:
  "q \<noteq> pk \<Longrightarrow> map_of (snd (balance_tx cr fresh pk sk t st)) q = map_of (snd st) q"
  by (cases st) (simp add: balance_tx_def Let_def map_of_map_entry)

lemma balance_tx_own:
  assumes "\<forall>m. verify cr pk (AStr m) (AStr (commit sk (AStr m))) = v"
  shows "map_of (snd (balance_tx cr fresh pk sk t st)) pk
           = map_option (\<lambda>b. b + (if v then (if PyStr pk = recipient t then amount t else 0)
                                        - (if PyStr pk = sender t then amount t else 0) else 0))
               (map_of (snd st) pk)"
  using assms
  by (cases st; cases "map_of (snd st) pk") (simp_all add: balance_tx_def Let_def map_of_map_entry)

lemma fold_balance_tx_other:
  "q \<noteq> pk \<Longrightarrow> map_of (snd (fold (balance_tx cr fresh pk sk) ts st)) q = map_of (snd st) q"
  by (induction ts arbitrary: st) (simp_all add: balance_tx_other)

lemma fold_balance_tx_own:
  assumes "\<forall>m. verify cr pk (AStr m) (AStr (commit sk (AStr m))) = v"
  shows "map_of (snd (fold (balance_tx cr fresh pk sk) ts st)) pk
           = map_option (\<lambda>b. b + (if v then (\<Sum>t\<leftarrow>ts. (if PyStr pk = recipient t then amount t else 0)
                                        - (if PyStr pk = sender t then amount t else 0)) else 0))
               (map_of (snd st) pk)"
proof (induction ts arbitrary: st)
  case Nil
  then show ?case by (cases "map_of (snd st) pk") simp_all
next
  case (Cons t ts)
  show ?case
    by (cases "map_of (snd st) pk")
       (simp_all add: Cons.IH balance_tx_own [OF assms] algebra_simps)
qed

lemma fold_balance_block:
  "fold (balance_block cr fresh pk sk) chn st
     = fold (balance_tx cr fresh pk sk) (concat (map transactions chn)) st"
  by (induction chn arbitrary: st) (simp_all add: balance_block_fold)

lemma fold_keys_other:
  "pk \<notin> fst ` set ks \<Longrightarrow>
     map_of (snd (fold (\<lambda>(pk, sk) st. fold (balance_block cr fresh pk sk) chn st) ks st)) pk
       = map_of (snd st) pk"
  by (induction ks arbitrary: st) (auto simp: fold_balance_block fold_balance_tx_other)

lemma fold_keys_own:
  assumes "\<forall>m. verify cr pk (AStr m) (AStr (commit sk (AStr m))) = v"
    and "distinct (map fst ks)" and "(pk, sk) \<in> set ks"
  shows "map_of (snd (fold (\<lambda>(pk, sk) st. fold (balance_block cr fresh pk sk) chn st) ks st)) pk
           = map_option (\<lambda>b. b + (if v then net_flow pk chn else 0)) (map_of (snd st) pk)"
  using assms(2,3)
proof (induction ks arbitrary: st)
  case Nil
  then show ?case by simp
next
  case (Cons k ks)
  obtain p s where k: "k = (p, s)" by (cases k)
  let ?F = "\<lambda>(pk, sk) st. fold (balance_block cr fresh pk sk) chn st"
  let ?st1 = "fold (balance_block cr fresh p s) chn st"
  have step: "fold ?F (k # ks) st = fold ?F ks ?st1"
    by (simp add: k)
  show ?case
  proof (cases "p = pk")
    case True
    with Cons.prems k have s: "s = sk" and notin: "pk \<notin> fst ` set ks"
      by (auto simp: image_iff)
    have "map_of (snd (fold ?F (k # ks) st)) pk = map_of (snd ?st1) pk"
      unfolding step by (rule fold_keys_other [OF notin])
    also have "\<dots> = map_option (\<lambda>b. b + (if v then net_flow pk chn else 0)) (map_of (snd st) pk)"
      using True s
      by (simp add: fold_balance_block fold_balance_tx_own [OF assms(1)] net_flow_def)
    finally show ?thesis .
  next
    case False
    with Cons.prems k have "distinct (map fst ks)" "(pk, sk) \<in> set ks" by auto
    from Cons.IH [OF this, of ?st1]
    have "map_of (snd (fold ?F (k # ks) st)) pk
            = map_option (\<lambda>b. b + (if v then net_flow pk chn else 0)) (map_of (snd ?st1) pk)"
      unfolding step .
    also have "map_of (snd ?st1) pk = map_of (snd st) pk"
      using False by (simp add: fold_balance_block fold_balance_tx_other)
    finally show ?thesis .
  qed
qed

lemma balance_init:
  "map_of (fold (\<lambda>(pk, sk) bal. AList.update pk (0::int) bal) ks acc) q
     = (if q \<in> fst ` set ks then Some 0 else map_of acc q)"
  by (induction ks arbitrary: acc) (auto simp: update_conv')

text \<open>
  C2 (amended). \<^verbatim>\<open>balance\<close> does not read the signature and message recorded in a
  transaction: replacing them throughout the chain leaves its result unchanged. The
  Verify it runs is on the owned address, a freshly drawn message and the commitment of
  that message under the private identifier the entity holds for the address. For an
  owned address where that Verify has the same outcome \<open>v\<close> for every message (it
  succeeds when the held identifier is the registered one, and fails when the address is
  not registered), the breakdown is 0 when it fails and, when it succeeds, what the
  transactions naming the address receive minus what they send. The total is the sum of
  the breakdown.
\<close>

theorem balance_checks_held_key:
  "balance self (blockchain\<lparr>chain := resign f (chain blockchain)\<rparr>) fresh
     = balance self blockchain fresh
   \<and> fst (balance self blockchain fresh) = sum_list (map snd (snd (balance self blockchain fresh)))
   \<and> (distinct (map fst (keys self)) \<and> (pk, sk) \<in> set (keys self)
        \<and> (\<forall>m. verify (crypto self) pk (AStr m) (AStr (commit sk (AStr m))) = v)
      \<longrightarrow> map_of (snd (balance self blockchain fresh)) pk
            = Some (if v then net_flow pk (chain blockchain) else 0))"
proof (intro conjI impI)
  show "balance self (blockchain\<lparr>chain := resign f (chain blockchain)\<rparr>) fresh
          = balance self blockchain fresh"
    by (rule balance_resign)
  show "fst (balance self blockchain fresh)
          = sum_list (map snd (snd (balance self blockchain fresh)))"
    by (rule balance_total)
next
  assume a: "distinct (map fst (keys self)) \<and> (pk, sk) \<in> set (keys self)
        \<and> (\<forall>m. verify (crypto self) pk (AStr m) (AStr (commit sk (AStr m))) = v)"
  then have v: "\<forall>m. verify (crypto self) pk (AStr m) (AStr (commit sk (AStr m))) = v"
    and d: "distinct (map fst (keys self))" and m: "(pk, sk) \<in> set (keys self)"
    by simp_all
  from m have "pk \<in> fst ` set (keys self)" by force
  with fold_keys_own [OF v d m] show "map_of (snd (balance self blockchain fresh)) pk
            = Some (if v then net_flow pk (chain blockchain) else 0)"
    by (simp add: balance_def Let_def balance_init)
qed

lemma ex_balance_forged:
  "balance (ex_ent [(''X'', ''skX'')]) (ex_ledger 4 ex_chain_forged) (\<lambda>n. ''m'')
     = (- 5, [(''X'', - 5)])"
  by (simp add: balance_def ex_ent_def ex_ledger_def ex_chain_forged_def ex_genesis_def
        ex_forged_tx_def balance_block_def balance_tx_def verify_own Let_def)

theorem balance_checks_held_key_witness:
  "map_of (snd (balance (ex_ent [(''X'', ''skX'')]) (ex_ledger 4 ex_chain_forged) (\<lambda>n. ''m''))) ''X''
     = Some (net_flow ''X'' ex_chain_forged)
   \<and> net_flow ''X'' ex_chain_forged = - 5
   \<and> balance (ex_ent [(''X'', ''skX'')])
         ((ex_ledger 4 ex_chain_forged)\<lparr>chain := resign (\<lambda>t. None) ex_chain_forged\<rparr>) (\<lambda>n. ''m'')
       = (- 5, [(''X'', - 5)])"
proof -
  let ?e = "ex_ent [(''X'', ''skX'')]"
  let ?l = "ex_ledger 4 ex_chain_forged"
  have h: "distinct (map fst (keys ?e)) \<and> (''X'', ''skX'') \<in> set (keys ?e)
        \<and> (\<forall>m. verify (crypto ?e) ''X'' (AStr m) (AStr (commit ''skX'' (AStr m))) = True)"
    by (simp add: ex_ent_def verify_def)
  have c: "chain ?l = ex_chain_forged"
    by (simp add: ex_ledger_def)
  have n: "net_flow ''X'' ex_chain_forged = - 5"
    by (simp add: net_flow_def ex_chain_forged_def ex_genesis_def ex_forged_tx_def)
  note t = balance_checks_held_key
    [where self = ?e and blockchain = ?l and fresh = "\<lambda>n. ''m''" and pk = "''X''"
       and sk = "''skX''" and v = True and f = "\<lambda>t. None"]
  from t [THEN conjunct1] t [THEN conjunct2, THEN conjunct2, THEN mp, OF h] n show ?thesis
    by (simp add: c ex_balance_forged)
qed

text \<open>
  The claim as stated fails: the transaction that debits X carries a signature for which
  Verify fails, on the very triple it records, and X is debited by its amount 5.
\<close>

theorem balance_checks_held_key_counterexample:
  "sender ex_forged_tx = PyStr ''X''
   \<and> \<not> verify (crypto (ex_ent [(''X'', ''skX'')])) ''X'' (message ex_forged_tx)
         (signature ex_forged_tx)
   \<and> snd (balance (ex_ent [(''X'', ''skX'')]) (ex_ledger 4 ex_chain_forged) (\<lambda>n. ''m''))
       = [(''X'', - 5)]"
proof -
  have "commit ''skX'' (AStr ''m'') \<noteq> ''bogus''"
    using length_commit [of "''skX''" "AStr ''m''"] by auto
  then have b: "\<not> verify (crypto (ex_ent [(''X'', ''skX'')])) ''X'' (message ex_forged_tx)
         (signature ex_forged_tx)"
    by (simp add: ex_forged_tx_def message_def signature_def verify_def ex_ent_def)
  have a: "sender ex_forged_tx = PyStr ''X''"
    by (simp add: ex_forged_tx_def)
  have c: "snd (balance (ex_ent [(''X'', ''skX'')]) (ex_ledger 4 ex_chain_forged) (\<lambda>n. ''m''))
       = [(''X'', - 5)]"
    by (simp add: ex_balance_forged)
  from a b c show ?thesis by simp
qed

end
